theory Spec2Isabelle
  imports Complex_Main
begin

section \<open>JavaScript values and exceptions\<close>

text \<open>
  The program is TypeScript: its static types are erased at run time, and the values that
  come back from \<^verbatim>\<open>JSON.parse\<close> and from the generation service are whatever the
  service sent. They are therefore modelled dynamically. A string is a list of code
  points, each one an Isabelle character (the Latin-1 range); a finite number is the
  rational value of the double.
\<close>

datatype js_number = Finite rat | PosInfinity | NegInfinity | NaN

datatype js_value =
    JUndefined
  | JNull
  | JBool bool
  | JNum js_number
  | JStr string
  | JArr "js_value list"
  | JObj "(string \<times> js_value) list"

text \<open>ToBoolean: what \<^verbatim>\<open>!v\<close> and \<^verbatim>\<open>v ? a : b\<close> test.\<close>

fun truthy :: "js_value \<Rightarrow> bool" where
  "truthy JUndefined = False"
| "truthy JNull = False"
| "truthy (JBool b) = b"
| "truthy (JNum (Finite r)) = (r \<noteq> 0)"
| "truthy (JNum PosInfinity) = True"
| "truthy (JNum NegInfinity) = True"
| "truthy (JNum NaN) = False"
| "truthy (JStr s) = (s \<noteq> [])"
| "truthy (JArr xs) = True"
| "truthy (JObj kvs) = True"

text \<open>
  A thrown value. Everything the program and the platform throw here is an instance of
  \<^verbatim>\<open>Error\<close> (the program's own \<^verbatim>\<open>new Error(...)\<close>, the \<^verbatim>\<open>SyntaxError\<close> of
  \<^verbatim>\<open>JSON.parse\<close>, the \<^verbatim>\<open>TypeError\<close> of the language, the client library's errors),
  so \<^verbatim>\<open>err instanceof Error ? err.message : String(err)\<close> is \<open>message\<close>.
\<close>

datatype error_class = PlainError | SyntaxError | TypeError | SecurityError | LibraryError

datatype thrown = Thrown error_class string

fun message :: "thrown \<Rightarrow> string" where
  "message (Thrown k m) = m"

section \<open>constants.ts\<close>

definition PLACEHOLDER_IMAGE_URL :: string where
  "PLACEHOLDER_IMAGE_URL = ''https://picsum.photos/500/500''"

definition PANEL_WIDTH :: int where
  "PANEL_WIDTH = 500"

definition PANEL_HEIGHT :: int where
  "PANEL_HEIGHT = 500"

definition CAPTION_HEIGHT :: int where
  "CAPTION_HEIGHT = 50"

definition COMIC_PADDING :: int where
  "COMIC_PADDING = 20"

definition DEFAULT_PANEL_COUNT :: nat where
  "DEFAULT_PANEL_COUNT = 4"

section \<open>The canvas of components/ComicStrip.tsx\<close>

text \<open>
  The hidden canvas is modelled as a display list: the drawing operations applied to its
  bitmap since the bitmap was last reset, each with the context state it was drawn
  under. Two canvases with the same dimensions and the same display list hold the same
  pixels.
\<close>

record context2d =
  fillStyle :: string
  font :: string
  textAlign :: string
  textBaseline :: string

definition default_context :: context2d where
  "default_context =
     \<lparr>fillStyle = ''#000000'', font = ''10px sans-serif'', textAlign = ''start'',
      textBaseline = ''alphabetic''\<rparr>"

type_synonym pixels = "nat list"

text \<open>A decoded image: its pixels, and whether it came from another origin.\<close>

record loaded_image =
  img_pixels :: pixels
  img_cross_origin :: bool

datatype draw_op =
    FillRect string int int int int
  | DrawImage loaded_image int int int int
  | FillText context2d js_value int int

record canvas =
  width :: int
  height :: int
  supports_2d :: bool
  ctx :: context2d
  bitmap :: "draw_op list"

text \<open>
  Assigning \<^verbatim>\<open>canvas.width\<close> or \<^verbatim>\<open>canvas.height\<close> clears the bitmap and resets
  the context to its default state, also when the value does not change.
\<close>

definition set_width :: "int \<Rightarrow> canvas \<Rightarrow> canvas" where
  "set_width v c = c\<lparr>width := v, ctx := default_context, bitmap := []\<rparr>"

definition set_height :: "int \<Rightarrow> canvas \<Rightarrow> canvas" where
  "set_height v c = c\<lparr>height := v, ctx := default_context, bitmap := []\<rparr>"

definition set_fillStyle :: "string \<Rightarrow> canvas \<Rightarrow> canvas" where
  "set_fillStyle s c = c\<lparr>ctx := (ctx c)\<lparr>fillStyle := s\<rparr>\<rparr>"

definition set_font :: "string \<Rightarrow> canvas \<Rightarrow> canvas" where
  "set_font s c = c\<lparr>ctx := (ctx c)\<lparr>font := s\<rparr>\<rparr>"

definition set_textAlign :: "string \<Rightarrow> canvas \<Rightarrow> canvas" where
  "set_textAlign s c = c\<lparr>ctx := (ctx c)\<lparr>textAlign := s\<rparr>\<rparr>"

definition fillRect :: "int \<Rightarrow> int \<Rightarrow> int \<Rightarrow> int \<Rightarrow> canvas \<Rightarrow> canvas" where
  "fillRect x y w h c = c\<lparr>bitmap := bitmap c @ [FillRect (fillStyle (ctx c)) x y w h]\<rparr>"

definition drawImage :: "loaded_image \<Rightarrow> int \<Rightarrow> int \<Rightarrow> int \<Rightarrow> int \<Rightarrow> canvas \<Rightarrow> canvas" where
  "drawImage img x y w h c = c\<lparr>bitmap := bitmap c @ [DrawImage img x y w h]\<rparr>"

definition fillText :: "js_value \<Rightarrow> int \<Rightarrow> int \<Rightarrow> canvas \<Rightarrow> canvas" where
  "fillText t x y c = c\<lparr>bitmap := bitmap c @ [FillText (ctx c) t x y]\<rparr>"

section \<open>The browser\<close>

text \<open>
  What the platform contributes to one stitching: the decoding of a
  \<^verbatim>\<open>data:image/png;base64,...\<close> URI (a function of the payload alone), the fetch of an
  image over the network (which may answer differently each time), and the PNG encoder
  behind \<^verbatim>\<open>canvas.toDataURL\<close>, which throws on a canvas it considers tainted. \<open>None\<close>
  from a loader is the image's \<^verbatim>\<open>error\<close> event, \<open>Some\<close> its \<^verbatim>\<open>load\<close> event.
\<close>

record browser =
  decodeDataUri :: "js_value \<Rightarrow> pixels option"
  fetchImage :: "string \<Rightarrow> pixels option"
  toDataURL :: "canvas \<Rightarrow> thrown + string"

text \<open>\<open>DataUri v\<close> is the string \<^verbatim>\<open>`data:image/png;base64,${v}`\<close>.\<close>

datatype image_src = DataUri js_value | Url string

fun load_image :: "browser \<Rightarrow> image_src \<Rightarrow> loaded_image option" where
  "load_image br (DataUri v) =
     (case decodeDataUri br v of
        None \<Rightarrow> None
      | Some px \<Rightarrow> Some \<lparr>img_pixels = px, img_cross_origin = False\<rparr>)"
| "load_image br (Url u) =
     (case fetchImage br u of
        None \<Rightarrow> None
      | Some px \<Rightarrow> Some \<lparr>img_pixels = px, img_cross_origin = True\<rparr>)"

section \<open>components/ComicStrip.tsx\<close>

record ComicPanel =
  caption :: js_value
  imageBase64 :: js_value

definition img_src :: "ComicPanel \<Rightarrow> image_src" where
  "img_src panel =
     (if truthy (imageBase64 panel) then DataUri (imageBase64 panel)
      else Url PLACEHOLDER_IMAGE_URL)"

text \<open>
  The body of \<^verbatim>\<open>for (const panel of panels)\<close>: each iteration awaits the image's
  \<^verbatim>\<open>load\<close> or \<^verbatim>\<open>error\<close> event before the next one starts. \<open>currentX\<close> is the loop's
  mutable variable.
\<close>

fun draw_panels :: "browser \<Rightarrow> ComicPanel list \<Rightarrow> int \<Rightarrow> canvas \<Rightarrow> int \<times> canvas" where
  "draw_panels br [] currentX c = (currentX, c)"
| "draw_panels br (panel # rest) currentX c =
     (case load_image br (img_src panel) of
        Some img \<Rightarrow>
          (let c1 = drawImage img currentX COMIC_PADDING PANEL_WIDTH PANEL_HEIGHT c;
               c2 = fillText (caption panel) (currentX + PANEL_WIDTH div 2)
                      (COMIC_PADDING + PANEL_HEIGHT + CAPTION_HEIGHT div 2 + 10) c1
           in draw_panels br rest (currentX + (PANEL_WIDTH + COMIC_PADDING)) c2)
      | None \<Rightarrow>
          (let c1 = set_fillStyle ''#e0e0e0'' c;
               c2 = fillRect currentX COMIC_PADDING PANEL_WIDTH PANEL_HEIGHT c1;
               c3 = set_fillStyle ''#666'' c2;
               c4 = fillText (JStr ''Error cargando imagen'') (currentX + PANEL_WIDTH div 2)
                      (COMIC_PADDING + PANEL_HEIGHT div 2) c3;
               c5 = set_fillStyle ''#333'' c4;
               c6 = fillText (caption panel) (currentX + PANEL_WIDTH div 2)
                      (COMIC_PADDING + PANEL_HEIGHT + CAPTION_HEIGHT div 2 + 10) c5
           in draw_panels br rest (currentX + (PANEL_WIDTH + COMIC_PADDING)) c6))"

text \<open>
  The component's own state (the canvas behind \<^verbatim>\<open>hiddenCanvasRef\<close>, absent while the
  canvas element is not rendered, and \<^verbatim>\<open>downloadLink\<close>), and what one call of
  \<^verbatim>\<open>drawComicForDownload\<close> leaves behind: the new state, the arguments of its
  \<^verbatim>\<open>onDownloadReady\<close> calls, and the exception it rejected with, if any.
\<close>

record strip_state =
  hiddenCanvas :: "canvas option"
  downloadLink :: "string option"

record stitch_outcome =
  strip :: strip_state
  onDownloadReady_calls :: "string list"
  rejection :: "thrown option"

definition drawComicForDownload :: "browser \<Rightarrow> ComicPanel list \<Rightarrow> strip_state \<Rightarrow> stitch_outcome" where
  "drawComicForDownload br panels st =
     (case hiddenCanvas st of
        None \<Rightarrow> \<lparr>strip = st, onDownloadReady_calls = [], rejection = None\<rparr>
      | Some cv \<Rightarrow>
          if length panels = 0 then \<lparr>strip = st, onDownloadReady_calls = [], rejection = None\<rparr>
          else if \<not> supports_2d cv then \<lparr>strip = st, onDownloadReady_calls = [], rejection = None\<rparr>
          else
            (let numPanels = int (length panels);
                 totalWidth = numPanels * PANEL_WIDTH + (numPanels - 1) * COMIC_PADDING
                                + 2 * COMIC_PADDING;
                 totalHeight = PANEL_HEIGHT + CAPTION_HEIGHT + 2 * COMIC_PADDING;
                 c1 = set_width totalWidth cv;
                 c2 = set_height totalHeight c1;
                 c3 = set_fillStyle ''#f9fafb'' c2;
                 c4 = fillRect 0 0 totalWidth totalHeight c3;
                 c5 = set_font ''20px Arial'' c4;
                 c6 = set_fillStyle ''#333'' c5;
                 c7 = set_textAlign ''center'' c6;
                 c8 = snd (draw_panels br panels COMIC_PADDING c7)
             in case toDataURL br c8 of
                  Inl e \<Rightarrow>
                    \<lparr>strip = st\<lparr>hiddenCanvas := Some c8\<rparr>, onDownloadReady_calls = [],
                     rejection = Some e\<rparr>
                | Inr dataUrl \<Rightarrow>
                    \<lparr>strip = \<lparr>hiddenCanvas = Some c8, downloadLink = Some dataUrl\<rparr>,
                     onDownloadReady_calls = [dataUrl], rejection = None\<rparr>))"

text \<open>The effect \<^verbatim>\<open>useEffect(() => { if (panels.length > 0 && !loading) ... })\<close>.\<close>

definition ComicStrip_effect :: "browser \<Rightarrow> ComicPanel list \<Rightarrow> bool \<Rightarrow> strip_state \<Rightarrow> stitch_outcome" where
  "ComicStrip_effect br panels loading st =
     (if length panels > 0 \<and> \<not> loading then drawComicForDownload br panels st
      else \<lparr>strip = st, onDownloadReady_calls = [], rejection = None\<rparr>)"

section \<open>JavaScript operations the application relies on\<close>

text \<open>\<^verbatim>\<open>String.prototype.trim\<close>: white space and line terminators, at both ends.\<close>

definition is_js_space :: "char \<Rightarrow> bool" where
  "is_js_space ch = (of_char ch \<in> set [9, 10, 11, 12, 13, 32, 160 :: nat])"

definition trim :: "string \<Rightarrow> string" where
  "trim s = rev (dropWhile is_js_space (rev (dropWhile is_js_space s)))"

text \<open>
  Reading \<^verbatim>\<open>v.name\<close> for a name that is no built-in property of arrays, strings,
  numbers or booleans (the program reads \<^verbatim>\<open>imagePrompt\<close> and \<^verbatim>\<open>caption\<close>). The
  messages of the language's own \<^verbatim>\<open>TypeError\<close>s are V8's.
\<close>

fun get_field :: "string \<Rightarrow> js_value \<Rightarrow> thrown + js_value" where
  "get_field name JUndefined =
     Inl (Thrown TypeError
       (''Cannot read properties of undefined (reading '' @ [CHR 0x27] @ name @ [CHR 0x27] @ '')''))"
| "get_field name JNull =
     Inl (Thrown TypeError
       (''Cannot read properties of null (reading '' @ [CHR 0x27] @ name @ [CHR 0x27] @ '')''))"
| "get_field name (JObj kvs) = Inr (case map_of kvs name of None \<Rightarrow> JUndefined | Some v \<Rightarrow> v)"
| "get_field name v = Inr JUndefined"

text \<open>Reading \<^verbatim>\<open>v.length\<close> of a value that is neither \<^verbatim>\<open>null\<close> nor \<^verbatim>\<open>undefined\<close>.\<close>

fun get_length :: "js_value \<Rightarrow> js_value" where
  "get_length (JArr xs) = JNum (Finite (of_nat (length xs)))"
| "get_length (JStr s) = JNum (Finite (of_nat (length s)))"
| "get_length (JObj kvs) = (case map_of kvs ''length'' of None \<Rightarrow> JUndefined | Some v \<Rightarrow> v)"
| "get_length v = JUndefined"

text \<open>What \<^verbatim>\<open>for (const prompt of panelPrompts)\<close> iterates over.\<close>

fun iterate :: "js_value \<Rightarrow> thrown + js_value list" where
  "iterate (JArr xs) = Inr xs"
| "iterate (JStr s) = Inr (map (\<lambda>ch. JStr [ch]) s)"
| "iterate v = Inl (Thrown TypeError ''panelPrompts is not iterable'')"

section \<open>The generation service and the platform\<close>

text \<open>How an awaited promise settles.\<close>

datatype 'a settled = Rejected thrown | Fulfilled 'a

text \<open>
  The request of \<^verbatim>\<open>generateComicPrompts\<close>: the model, the response schema and the
  instruction text are fixed but for the panel count interpolated into the text.
\<close>

record text_request =
  req_image :: string
  req_mimeType :: string
  req_panelCount :: nat

text \<open>A part of an image response: the \<^verbatim>\<open>data\<close> of its \<^verbatim>\<open>inlineData\<close>, if it has one.\<close>

datatype part = Part "js_value option"

text \<open>
  Everything outside the program that one run depends on: the environment variable, the
  two \<^verbatim>\<open>generateContent\<close> calls (the image call also by its position in the run, since
  the service may answer the same prompt differently), and \<^verbatim>\<open>JSON.parse\<close>. The text
  response is \<^verbatim>\<open>response.text\<close>, the image response
  \<^verbatim>\<open>response.candidates?.[0]?.content?.parts\<close>; \<open>None\<close> is \<^verbatim>\<open>undefined\<close>.
\<close>

record world =
  API_KEY :: "string option"
  generateContent_text :: "text_request \<Rightarrow> string option settled"
  generateContent_image :: "nat \<Rightarrow> js_value \<Rightarrow> part list option settled"
  JSON_parse :: "string \<Rightarrow> thrown + js_value"

section \<open>services/geminiService.ts\<close>

definition getGenerativeAI :: "world \<Rightarrow> thrown + unit" where
  "getGenerativeAI w =
     (case API_KEY w of
        None \<Rightarrow> Inl (Thrown PlainError ''API_KEY environment variable is not set.'')
      | Some k \<Rightarrow>
          if k = [] then Inl (Thrown PlainError ''API_KEY environment variable is not set.'')
          else Inr ())"

text \<open>The \<^verbatim>\<open>try\<close> block of \<^verbatim>\<open>generateComicPrompts\<close>.\<close>

definition generateComicPrompts_try :: "world \<Rightarrow> string \<Rightarrow> string \<Rightarrow> nat \<Rightarrow> thrown + js_value" where
  "generateComicPrompts_try w imageB64 mimeType panelCount =
     (case generateContent_text w
             \<lparr>req_image = imageB64, req_mimeType = mimeType, req_panelCount = panelCount\<rparr> of
        Rejected e \<Rightarrow> Inl e
      | Fulfilled text \<Rightarrow>
          (case map_option trim text of
             None \<Rightarrow>
               Inl (Thrown PlainError
                 ''Empty response or no text content from Gemini API for comic prompts.'')
           | Some jsonStr \<Rightarrow>
               if jsonStr = [] then
                 Inl (Thrown PlainError
                   ''Empty response or no text content from Gemini API for comic prompts.'')
               else JSON_parse w jsonStr))"

definition generateComicPrompts :: "world \<Rightarrow> string \<Rightarrow> string \<Rightarrow> nat \<Rightarrow> thrown + js_value" where
  "generateComicPrompts w imageB64 mimeType panelCount =
     (case getGenerativeAI w of
        Inl e \<Rightarrow> Inl e
      | Inr ai \<Rightarrow>
          (case generateComicPrompts_try w imageB64 mimeType panelCount of
             Inl e \<Rightarrow> Inl (Thrown PlainError (''Failed to generate comic prompts: '' @ message e))
           | Inr parsedData \<Rightarrow> Inr parsedData))"

text \<open>The scan \<^verbatim>\<open>for (const part of ... || [])\<close> for the first inline image payload.\<close>

fun first_inlineData :: "part list \<Rightarrow> js_value option" where
  "first_inlineData [] = None"
| "first_inlineData (Part (Some d) # ps) = Some d"
| "first_inlineData (Part None # ps) = first_inlineData ps"

definition generateImageFromPrompt_try :: "world \<Rightarrow> nat \<Rightarrow> js_value \<Rightarrow> thrown + js_value" where
  "generateImageFromPrompt_try w k imagePrompt =
     (case generateContent_image w k imagePrompt of
        Rejected e \<Rightarrow> Inl e
      | Fulfilled parts \<Rightarrow>
          (case first_inlineData (case parts of None \<Rightarrow> [] | Some ps \<Rightarrow> ps) of
             Some d \<Rightarrow> Inr d
           | None \<Rightarrow> Inl (Thrown PlainError ''No image data found in the Gemini API response.'')))"

text \<open>\<open>k\<close> counts the image calls the run has made before this one.\<close>

definition generateImageFromPrompt :: "world \<Rightarrow> nat \<Rightarrow> js_value \<Rightarrow> thrown + js_value" where
  "generateImageFromPrompt w k imagePrompt =
     (case getGenerativeAI w of
        Inl e \<Rightarrow> Inl e
      | Inr ai \<Rightarrow>
          (case generateImageFromPrompt_try w k imagePrompt of
             Inl e \<Rightarrow> Inl (Thrown PlainError (''Failed to generate image: '' @ message e))
           | Inr d \<Rightarrow> Inr d))"

section \<open>App.tsx\<close>

datatype AppView = UPLOAD | PREVIEW | COMIC

record UploadedImage =
  base64 :: string
  filename :: string

record app_state =
  view :: AppView
  uploadedImage :: "UploadedImage option"
  uploadedImageMimeType :: "string option"
  comicPanels :: "ComicPanel list"
  comicDownloadDataUrl :: "string option"
  loading :: bool
  error :: "string option"

text \<open>
  The run's calls of the two generators, in the order they happen: an \<^verbatim>\<open>await f(...)\<close>
  issues the call and suspends \<^verbatim>\<open>handleGenerateComic\<close> until the promise settles.
\<close>

datatype event =
    PromptGeneratorCalled
  | PromptGeneratorSettled "thrown + js_value"
  | ImageGeneratorCalled js_value
  | ImageGeneratorSettled "thrown + js_value"

text \<open>
  The loop \<^verbatim>\<open>for (const prompt of panelPrompts)\<close> with its local
  \<^verbatim>\<open>generatedPanels\<close>; \<open>k\<close> is the number of image calls made so far.
\<close>

fun generate_panels ::
  "world \<Rightarrow> nat \<Rightarrow> js_value list \<Rightarrow> ComicPanel list \<Rightarrow> event list \<Rightarrow> (thrown + ComicPanel list) \<times> event list" where
  "generate_panels w k [] generatedPanels evs = (Inr generatedPanels, evs)"
| "generate_panels w k (prompt # rest) generatedPanels evs =
     (case get_field ''imagePrompt'' prompt of
        Inl e \<Rightarrow> (Inl e, evs)
      | Inr imagePrompt \<Rightarrow>
          (let r = generateImageFromPrompt w k imagePrompt;
               evs1 = evs @ [ImageGeneratorCalled imagePrompt, ImageGeneratorSettled r]
           in case r of
                Inl e \<Rightarrow> (Inl e, evs1)
              | Inr imageB64 \<Rightarrow>
                  (case get_field ''caption'' prompt of
                     Inl e \<Rightarrow> (Inl e, evs1)
                   | Inr cap \<Rightarrow>
                       generate_panels w (Suc k) rest
                         (generatedPanels @ [\<lparr>caption = cap, imageBase64 = imageB64\<rparr>]) evs1)))"

text \<open>The \<^verbatim>\<open>try\<close> block of \<^verbatim>\<open>handleGenerateComic\<close>.\<close>

definition handleGenerateComic_try :: "world \<Rightarrow> UploadedImage \<Rightarrow> string \<Rightarrow> (thrown + ComicPanel list) \<times> event list" where
  "handleGenerateComic_try w uploaded mimeType =
     (let r = generateComicPrompts w (base64 uploaded) mimeType DEFAULT_PANEL_COUNT;
          evs = [PromptGeneratorCalled, PromptGeneratorSettled r]
      in case r of
           Inl e \<Rightarrow> (Inl e, evs)
         | Inr panelPrompts \<Rightarrow>
             if \<not> truthy panelPrompts \<or> get_length panelPrompts = JNum (Finite 0) then
               (Inl (Thrown PlainError
                  (''El modelo no pudo generar las descripciones para las vi'' @ [CHR 0xF1]
                   @ ''etas del c'' @ [CHR 0xF3] @ ''mic.'')), evs)
             else
               (case iterate panelPrompts of
                  Inl e \<Rightarrow> (Inl e, evs)
                | Inr prompts \<Rightarrow> generate_panels w 0 prompts [] evs))"

definition handleGenerateComic :: "world \<Rightarrow> app_state \<Rightarrow> app_state \<times> event list" where
  "handleGenerateComic w s =
     (case (uploadedImage s, uploadedImageMimeType s) of
        (Some uploaded, Some mimeType) \<Rightarrow>
          if mimeType = [] then
            (s\<lparr>error := Some (''No hay imagen cargada para generar el c'' @ [CHR 0xF3] @ ''mic.'')\<rparr>, [])
          else
            (let s1 = s\<lparr>loading := True, error := None, comicPanels := [],
                        comicDownloadDataUrl := None\<rparr>
             in case handleGenerateComic_try w uploaded mimeType of
                  (Inr generatedPanels, evs) \<Rightarrow>
                    (s1\<lparr>comicPanels := generatedPanels, view := COMIC, loading := False\<rparr>, evs)
                | (Inl err, evs) \<Rightarrow>
                    (s1\<lparr>error := Some (''Error al generar el c'' @ [CHR 0xF3] @ ''mic: '' @ message err),
                        loading := False\<rparr>, evs))
      | _ \<Rightarrow>
          (s\<lparr>error := Some (''No hay imagen cargada para generar el c'' @ [CHR 0xF3] @ ''mic.'')\<rparr>, []))"

section \<open>Reading the display list\<close>

text \<open>
  The display list that the layout rules of the stitched raster prescribe for one panel
  slot whose left edge is \<open>x\<close>, written with the values of the layout constants: the
  illustration scaled to 500 by 500 at \<open>(x, 20)\<close>, or the fallback box and its label when
  the image did not load, and then the caption. It is compared with what the loop of
  \<^verbatim>\<open>drawComicForDownload\<close> draws.
\<close>

definition spec_slot :: "context2d \<Rightarrow> loaded_image option \<Rightarrow> js_value \<Rightarrow> int \<Rightarrow> draw_op list" where
  "spec_slot cx outcome cap x =
     (case outcome of
        Some img \<Rightarrow> [DrawImage img x 20 500 500]
      | None \<Rightarrow>
          [FillRect ''#e0e0e0'' x 20 500 500,
           FillText (cx\<lparr>fillStyle := ''#666''\<rparr>) (JStr ''Error cargando imagen'') (x + 250) 270])
     @ [FillText cx cap (x + 250) 555]"

text \<open>The context state the captions are drawn under.\<close>

definition caption_style :: context2d where
  "caption_style =
     \<lparr>fillStyle = ''#333'', font = ''20px Arial'', textAlign = ''center'',
      textBaseline = ''alphabetic''\<rparr>"

text \<open>
  The operations that fill a panel's illustration box (an image, or the fallback box in
  its colour), and the operations that draw a caption (text in the caption colour; the
  fallback label has a colour of its own).
\<close>

fun is_illustration :: "draw_op \<Rightarrow> bool" where
  "is_illustration (DrawImage img x y w h) = True"
| "is_illustration (FillRect style x y w h) = (style = ''#e0e0e0'')"
| "is_illustration (FillText cx t x y) = False"

fun is_caption :: "draw_op \<Rightarrow> bool" where
  "is_caption (FillText cx t x y) = (fillStyle cx = ''#333'')"
| "is_caption (DrawImage img x y w h) = False"
| "is_caption (FillRect style x y w h) = False"

section \<open>An example browser and example panel lists\<close>

text \<open>
  A browser whose decoder rejects the payload \<^verbatim>\<open>!\<close> (not base64) and accepts every other
  string, and whose encoder refuses a canvas that a cross-origin image was drawn on.
\<close>

definition example_decode :: "js_value \<Rightarrow> pixels option" where
  "example_decode v = (case v of JStr s \<Rightarrow> if s = ''!'' then None else Some (map of_char s) | _ \<Rightarrow> None)"

fun is_cross_origin_draw :: "draw_op \<Rightarrow> bool" where
  "is_cross_origin_draw (DrawImage img x y w h) = img_cross_origin img"
| "is_cross_origin_draw (FillRect style x y w h) = False"
| "is_cross_origin_draw (FillText cx t x y) = False"

definition example_encode :: "canvas \<Rightarrow> thrown + string" where
  "example_encode c =
     (if list_ex is_cross_origin_draw (bitmap c)
      then Inl (Thrown SecurityError ''Tainted canvases may not be exported.'')
      else Inr ''data:image/png;base64,iVBORw0KGgo='')"

definition example_browser :: browser where
  "example_browser =
     \<lparr>decodeDataUri = example_decode, fetchImage = (\<lambda>u. Some [0]), toDataURL = example_encode\<rparr>"

text \<open>The same browser without a network: every fetch fails.\<close>

definition example_browser_offline :: browser where
  "example_browser_offline =
     \<lparr>decodeDataUri = example_decode, fetchImage = (\<lambda>u. None), toDataURL = example_encode\<rparr>"

definition example_canvas :: canvas where
  "example_canvas =
     \<lparr>width = 300, height = 150, supports_2d = True, ctx = default_context, bitmap = []\<rparr>"

definition example_strip :: strip_state where
  "example_strip = \<lparr>hiddenCanvas = Some example_canvas, downloadLink = None\<rparr>"

definition example_panels :: "ComicPanel list" where
  "example_panels =
     [\<lparr>caption = JStr ''Uno'', imageBase64 = JStr ''QQ==''\<rparr>,
      \<lparr>caption = JStr ''Dos'', imageBase64 = JStr ''Qg==''\<rparr>,
      \<lparr>caption = JStr ''Tres'', imageBase64 = JStr ''Qw==''\<rparr>,
      \<lparr>caption = JStr ''Fin'', imageBase64 = JStr ''RA==''\<rparr>]"

definition example_panels_one_bad :: "ComicPanel list" where
  "example_panels_one_bad =
     [\<lparr>caption = JStr ''Uno'', imageBase64 = JStr ''QQ==''\<rparr>,
      \<lparr>caption = JStr ''Dos'', imageBase64 = JStr ''!''\<rparr>,
      \<lparr>caption = JStr ''Fin'', imageBase64 = JStr ''RA==''\<rparr>]"

section \<open>Reading the run's calls\<close>

text \<open>
  The ordering that the orchestration promises, as an automaton over the run's calls:
  the prompt generator is called first; an image generator call is issued only when no
  call is pending and the prompt generator has fulfilled; a call that rejects ends the
  run. A phase with \<open>Pending\<close> in its name has exactly one call outstanding, every other
  phase none. It is compared with the calls \<^verbatim>\<open>handleGenerateComic\<close> makes.
\<close>

datatype spec_phase = NotStarted | PromptPending | Idle | ImagePending | Aborted

fun spec_step :: "spec_phase \<Rightarrow> event \<Rightarrow> spec_phase option" where
  "spec_step NotStarted PromptGeneratorCalled = Some PromptPending"
| "spec_step PromptPending (PromptGeneratorSettled (Inl e)) = Some Aborted"
| "spec_step PromptPending (PromptGeneratorSettled (Inr v)) = Some Idle"
| "spec_step Idle (ImageGeneratorCalled p) = Some ImagePending"
| "spec_step ImagePending (ImageGeneratorSettled (Inl e)) = Some Aborted"
| "spec_step ImagePending (ImageGeneratorSettled (Inr v)) = Some Idle"
| "spec_step ph ev = None"

fun spec_run :: "spec_phase \<Rightarrow> event list \<Rightarrow> spec_phase option" where
  "spec_run ph [] = Some ph"
| "spec_run ph (ev # evs) =
     (case spec_step ph ev of None \<Rightarrow> None | Some ph' \<Rightarrow> spec_run ph' evs)"

fun is_call :: "event \<Rightarrow> bool" where
  "is_call PromptGeneratorCalled = True"
| "is_call (ImageGeneratorCalled p) = True"
| "is_call (PromptGeneratorSettled r) = False"
| "is_call (ImageGeneratorSettled r) = False"

text \<open>The number of calls issued and not yet settled at the end of a sequence of events.\<close>

definition in_flight :: "event list \<Rightarrow> int" where
  "in_flight evs = int (length (filter is_call evs)) - int (length (filter (\<lambda>ev. \<not> is_call ev) evs))"

text \<open>The number of calls a phase has outstanding.\<close>

fun pending :: "spec_phase \<Rightarrow> int" where
  "pending PromptPending = 1"
| "pending ImagePending = 1"
| "pending ph = 0"

text \<open>
  Modelled from the spec: \<^verbatim>\<open>COMIC_PANEL_SCHEMA\<close> is declared in \<^verbatim>\<open>types.ts\<close>, which
  is not among the sources. The specification describes it as a JSON array of objects,
  each with \<^verbatim>\<open>panelNumber\<close> (an integer), \<^verbatim>\<open>imagePrompt\<close> (a string) and
  \<^verbatim>\<open>caption\<close> (a string).
\<close>

fun matches_entry_schema :: "js_value \<Rightarrow> bool" where
  "matches_entry_schema (JObj kvs) =
     ((case map_of kvs ''panelNumber'' of
         Some (JNum (Finite r)) \<Rightarrow> r = of_int (floor r)
       | _ \<Rightarrow> False)
      \<and> (case map_of kvs ''imagePrompt'' of Some (JStr t) \<Rightarrow> True | _ \<Rightarrow> False)
      \<and> (case map_of kvs ''caption'' of Some (JStr t) \<Rightarrow> True | _ \<Rightarrow> False))"
| "matches_entry_schema v = False"

fun matches_COMIC_PANEL_SCHEMA :: "js_value \<Rightarrow> bool" where
  "matches_COMIC_PANEL_SCHEMA (JArr xs) = list_all matches_entry_schema xs"
| "matches_COMIC_PANEL_SCHEMA v = False"

section \<open>Example runs\<close>

text \<open>
  A script of two panels as the service sends it, and the value \<^verbatim>\<open>JSON.parse\<close> makes
  of it.
\<close>

definition example_script_text :: string where
  \<open>example_script_text =
     ''[{"panelNumber":1,"imagePrompt":"a cat wakes up","caption":"Uno"},''
     @ ''{"panelNumber":2,"imagePrompt":"the cat jumps","caption":"Dos"}]''\<close>

definition example_script :: js_value where
  "example_script =
     JArr [JObj [(''panelNumber'', JNum (Finite 1)), (''imagePrompt'', JStr ''a cat wakes up''),
                 (''caption'', JStr ''Uno'')],
           JObj [(''panelNumber'', JNum (Finite 2)), (''imagePrompt'', JStr ''the cat jumps''),
                 (''caption'', JStr ''Dos'')]]"

text \<open>
  \<^verbatim>\<open>JSON.parse\<close> on the texts the examples use: the script above, the empty array, the
  number 42, and (as every other text the examples use) the malformed \<^verbatim>\<open>{oops\<close>.
\<close>

definition example_JSON_parse :: "string \<Rightarrow> thrown + js_value" where
  "example_JSON_parse t =
     (if t = example_script_text then Inr example_script
      else if t = ''[]'' then Inr (JArr [])
      else if t = ''42'' then Inr (JNum (Finite 42))
      else Inl (Thrown SyntaxError ''Expected property name or } in JSON at position 1''))"

text \<open>
  A world in which the text call answers \<open>text\<close>, and every image call answers with one
  text part and one inline image, except the call number \<open>failing\<close>, which is rejected.
\<close>

definition example_world :: "string option \<Rightarrow> nat option \<Rightarrow> world" where
  "example_world text failing =
     \<lparr>API_KEY = Some ''secret'',
      generateContent_text = (\<lambda>req. Fulfilled text),
      generateContent_image =
        (\<lambda>k p. if Some k = failing then Rejected (Thrown LibraryError ''503 Service Unavailable'')
               else Fulfilled (Some [Part None, Part (Some (JStr ''QQ==''))])),
      JSON_parse = example_JSON_parse\<rparr>"

definition example_state :: app_state where
  "example_state =
     \<lparr>view = PREVIEW, uploadedImage = Some \<lparr>base64 = ''aGk='', filename = ''cat.png''\<rparr>,
      uploadedImageMimeType = Some ''image/png'', comicPanels = [],
      comicDownloadDataUrl = None, loading = False, error = None\<rparr>"

section \<open>The stitched raster\<close>

lemma draw_panels_width: "width (snd (draw_panels br ps x c)) = width c"
  by (induction ps arbitrary: x c)
     (simp_all add: Let_def drawImage_def fillText_def fillRect_def set_fillStyle_def
        split: option.splits)

lemma draw_panels_height: "height (snd (draw_panels br ps x c)) = height c"
  by (induction ps arbitrary: x c)
     (simp_all add: Let_def drawImage_def fillText_def fillRect_def set_fillStyle_def
        split: option.splits)

lemma concat_map_upt_Suc:
  "concat (map f [0..<Suc n]) = f 0 @ concat (map (\<lambda>i. f (Suc i)) [0..<n])"
proof -
  have "[0..<Suc n] = 0 # map Suc [0..<n]"
    by (simp add: upt_conv_Cons map_Suc_upt del: upt_Suc)
  then show ?thesis by (simp add: comp_def del: upt_Suc)
qed

lemma draw_panels_slots:
  assumes "fillStyle (ctx c) = ''#333''"
  shows "bitmap (snd (draw_panels br ps x c)) =
           bitmap c @ concat (map (\<lambda>i. spec_slot (ctx c) (load_image br (img_src (ps ! i)))
                                         (caption (ps ! i)) (x + int i * 520)) [0..<length ps])
         \<and> ctx (snd (draw_panels br ps x c)) = ctx c"
  using assms
proof (induction ps arbitrary: x c)
  case Nil
  then show ?case by simp
next
  case (Cons p ps)
  obtain c' where step: "draw_panels br (p # ps) x c = draw_panels br ps (x + 520) c'"
    and cx: "ctx c' = ctx c"
    and bm: "bitmap c' = bitmap c @ spec_slot (ctx c) (load_image br (img_src p)) (caption p) x"
  proof (cases "load_image br (img_src p)")
    case None
    define c6 where "c6 = fillText (caption p) (x + PANEL_WIDTH div 2)
        (COMIC_PADDING + PANEL_HEIGHT + CAPTION_HEIGHT div 2 + 10)
        (set_fillStyle ''#333'' (fillText (JStr ''Error cargando imagen'') (x + PANEL_WIDTH div 2)
           (COMIC_PADDING + PANEL_HEIGHT div 2)
           (set_fillStyle ''#666'' (fillRect x COMIC_PADDING PANEL_WIDTH PANEL_HEIGHT
              (set_fillStyle ''#e0e0e0'' c)))))"
    have "draw_panels br (p # ps) x c = draw_panels br ps (x + 520) c6"
      using None by (simp add: Let_def c6_def PANEL_WIDTH_def COMIC_PADDING_def)
    moreover have "ctx c6 = ctx c"
      using Cons.prems by (simp add: c6_def fillText_def set_fillStyle_def fillRect_def)
    moreover have "bitmap c6 = bitmap c @ spec_slot (ctx c) (load_image br (img_src p)) (caption p) x"
      using Cons.prems None
      by (simp add: c6_def fillText_def set_fillStyle_def fillRect_def spec_slot_def
            PANEL_WIDTH_def PANEL_HEIGHT_def COMIC_PADDING_def CAPTION_HEIGHT_def)
    ultimately show ?thesis using that by blast
  next
    case (Some img)
    define c2 where "c2 = fillText (caption p) (x + PANEL_WIDTH div 2)
        (COMIC_PADDING + PANEL_HEIGHT + CAPTION_HEIGHT div 2 + 10)
        (drawImage img x COMIC_PADDING PANEL_WIDTH PANEL_HEIGHT c)"
    have "draw_panels br (p # ps) x c = draw_panels br ps (x + 520) c2"
      using Some by (simp add: Let_def c2_def PANEL_WIDTH_def COMIC_PADDING_def)
    moreover have "ctx c2 = ctx c"
      by (simp add: c2_def fillText_def drawImage_def)
    moreover have "bitmap c2 = bitmap c @ spec_slot (ctx c) (load_image br (img_src p)) (caption p) x"
      using Some
      by (simp add: c2_def fillText_def drawImage_def spec_slot_def
            PANEL_WIDTH_def PANEL_HEIGHT_def COMIC_PADDING_def CAPTION_HEIGHT_def)
    ultimately show ?thesis using that by blast
  qed
  have ih: "bitmap (snd (draw_panels br ps (x + 520) c')) =
           bitmap c' @ concat (map (\<lambda>i. spec_slot (ctx c') (load_image br (img_src (ps ! i)))
                                         (caption (ps ! i)) (x + 520 + int i * 520)) [0..<length ps])
         \<and> ctx (snd (draw_panels br ps (x + 520) c')) = ctx c'"
    using Cons.IH [of c' "x + 520"] cx Cons.prems by simp
  have shift: "\<And>i. x + int (Suc i) * 520 = x + 520 + int i * 520"
    by simp
  show ?case
    unfolding step
    using ih
    by (simp only: cx bm concat_map_upt_Suc length_Cons nth_Cons_0 nth_Cons_Suc shift
          of_nat_0 mult_zero_left add_0_right append_assoc)
qed


lemma draw_panels_supports: "supports_2d (snd (draw_panels br ps x c)) = supports_2d c"
  by (induction ps arbitrary: x c)
     (simp_all add: Let_def drawImage_def fillText_def fillRect_def set_fillStyle_def
        split: option.splits)

lemma stitched_layout:
  assumes "panels \<noteq> []" and "hiddenCanvas st = Some cv" and "supports_2d cv"
  shows "hiddenCanvas (strip (drawComicForDownload br panels st)) =
     Some \<lparr>width = int (length panels) * 520 + 20, height = 590, supports_2d = True,
           ctx = caption_style,
           bitmap = FillRect ''#f9fafb'' 0 0 (int (length panels) * 520 + 20) 590 #
             concat (map (\<lambda>i. spec_slot caption_style (load_image br (img_src (panels ! i)))
                       (caption (panels ! i)) (20 + int i * 520)) [0..<length panels])\<rparr>"
proof -
  define tw where "tw = int (length panels) * PANEL_WIDTH + (int (length panels) - 1) * COMIC_PADDING
                                + 2 * COMIC_PADDING"
  define th where "th = PANEL_HEIGHT + CAPTION_HEIGHT + 2 * COMIC_PADDING"
  define c7 where "c7 = set_textAlign ''center'' (set_fillStyle ''#333'' (set_font ''20px Arial''
      (fillRect 0 0 tw th (set_fillStyle ''#f9fafb'' (set_height th (set_width tw cv))))))"
  define c8 where "c8 = snd (draw_panels br panels COMIC_PADDING c7)"
  have tw: "tw = int (length panels) * 520 + 20"
    by (simp add: tw_def PANEL_WIDTH_def COMIC_PADDING_def algebra_simps)
  have th: "th = 590"
    by (simp add: th_def PANEL_HEIGHT_def CAPTION_HEIGHT_def COMIC_PADDING_def)
  have c7: "c7 = \<lparr>width = tw, height = th, supports_2d = True, ctx = caption_style,
                  bitmap = [FillRect ''#f9fafb'' 0 0 tw th]\<rparr>"
    using assms(3)
    by (simp add: c7_def set_textAlign_def set_fillStyle_def set_font_def fillRect_def
          set_height_def set_width_def default_context_def caption_style_def)
  have style: "fillStyle (ctx c7) = ''#333''"
    by (simp add: c7 caption_style_def)
  have "hiddenCanvas (strip (drawComicForDownload br panels st)) = Some c8"
    using assms
    by (simp add: drawComicForDownload_def Let_def c8_def c7_def tw_def th_def split: sum.splits)
  moreover have "c8 = \<lparr>width = tw, height = th, supports_2d = True, ctx = caption_style,
           bitmap = FillRect ''#f9fafb'' 0 0 tw th #
             concat (map (\<lambda>i. spec_slot caption_style (load_image br (img_src (panels ! i)))
                       (caption (panels ! i)) (20 + int i * 520)) [0..<length panels])\<rparr>"
  proof -
    have "width c8 = tw" "height c8 = th"
      by (simp_all add: c8_def draw_panels_width draw_panels_height c7)
    moreover have "supports_2d c8"
      using draw_panels_supports [of br panels COMIC_PADDING c7] by (simp add: c8_def c7)
    moreover have "ctx c8 = caption_style"
      using draw_panels_slots [OF style, of br panels COMIC_PADDING] by (simp add: c8_def c7)
    moreover have "bitmap c8 = FillRect ''#f9fafb'' 0 0 tw th #
             concat (map (\<lambda>i. spec_slot caption_style (load_image br (img_src (panels ! i)))
                       (caption (panels ! i)) (20 + int i * 520)) [0..<length panels])"
      using draw_panels_slots [OF style, of br panels COMIC_PADDING]
      by (simp add: c8_def c7 COMIC_PADDING_def)
    ultimately show ?thesis by (cases c8) simp
  qed
  ultimately show ?thesis by (simp add: tw th)
qed

lemma illustrations_slot:
  "filter is_illustration (spec_slot caption_style outcome cap x) =
     [case outcome of Some img \<Rightarrow> DrawImage img x 20 500 500
        | None \<Rightarrow> FillRect ''#e0e0e0'' x 20 500 500]"
  by (simp add: spec_slot_def caption_style_def split: option.splits)

lemma captions_slot:
  "filter is_caption (spec_slot caption_style outcome cap x) =
     [FillText caption_style cap (x + 250) 555]"
  by (simp add: spec_slot_def caption_style_def split: option.splits)

lemma concat_map_singleton: "concat (map (\<lambda>i. [f i]) xs) = map f xs"
  by (induction xs) simp_all

text \<open>
  Claim C2. For a non-empty panel list of length \<open>N\<close>, the canvas that the stitching
  leaves behind is \<open>N * W + (N - 1) * P + 2 * P\<close> wide and \<open>H + C + 2 * P\<close> high, with
  \<open>W = 500\<close>, \<open>H = 500\<close>, \<open>C = 50\<close>, \<open>P = 20\<close>; for four panels that is 2100 by 590.
  (The canvas element exists and gives a 2D context whenever the stitching gets to draw.)
\<close>

theorem stitched_raster_dimensions:
  assumes "panels \<noteq> []" and "hiddenCanvas st = Some cv" and "supports_2d cv"
  shows "\<exists>c'. hiddenCanvas (strip (drawComicForDownload br panels st)) = Some c'
     \<and> width c' = int (length panels) * PANEL_WIDTH + (int (length panels) - 1) * COMIC_PADDING
                    + 2 * COMIC_PADDING
     \<and> height c' = PANEL_HEIGHT + CAPTION_HEIGHT + 2 * COMIC_PADDING
     \<and> PANEL_WIDTH = 500 \<and> PANEL_HEIGHT = 500 \<and> CAPTION_HEIGHT = 50 \<and> COMIC_PADDING = 20
     \<and> (if length panels = 4 then width c' = 2100 \<and> height c' = 590 else True)"
  using stitched_layout [OF assms, of br]
  by (simp add: PANEL_WIDTH_def PANEL_HEIGHT_def CAPTION_HEIGHT_def COMIC_PADDING_def algebra_simps)

theorem stitched_raster_dimensions_witness:
  "\<exists>c'. hiddenCanvas (strip (drawComicForDownload example_browser example_panels example_strip)) = Some c'
     \<and> width c' = 2100 \<and> height c' = 590"
  using stitched_raster_dimensions [of example_panels example_strip example_canvas example_browser]
  by (auto simp add: example_panels_def example_strip_def example_canvas_def
        PANEL_WIDTH_def PANEL_HEIGHT_def CAPTION_HEIGHT_def COMIC_PADDING_def)

text \<open>
  Claim C10. On an empty panel list \<^verbatim>\<open>drawComicForDownload\<close> returns at once: the
  canvas and the download link are as they were and \<^verbatim>\<open>onDownloadReady\<close> is not called.
  The effect that starts the stitching does not even call it.
\<close>

theorem empty_panels_no_stitch:
  "drawComicForDownload br [] st = \<lparr>strip = st, onDownloadReady_calls = [], rejection = None\<rparr>
   \<and> ComicStrip_effect br [] isLoading st
       = \<lparr>strip = st, onDownloadReady_calls = [], rejection = None\<rparr>"
  by (simp add: drawComicForDownload_def ComicStrip_effect_def split: option.splits)

theorem empty_panels_no_stitch_witness:
  "drawComicForDownload example_browser [] example_strip
     = \<lparr>strip = example_strip, onDownloadReady_calls = [], rejection = None\<rparr>
   \<and> ComicStrip_effect example_browser [] False example_strip
       = \<lparr>strip = example_strip, onDownloadReady_calls = [], rejection = None\<rparr>"
  using empty_panels_no_stitch [of example_browser example_strip False]
  by simp

text \<open>
  Claim C3. The illustrations (or fallback boxes) of the stitched raster are drawn in the
  order of the panel list, one per panel: the \<open>i\<close>-th one drawn (from 0) belongs to the
  \<open>i\<close>-th panel and sits at \<open>(P + i * (W + P), P)\<close>, scaled to \<open>W\<close> by \<open>H\<close>, whatever the
  images' loading did.
\<close>

theorem panels_drawn_in_index_order:
  assumes "panels \<noteq> []" and "hiddenCanvas st = Some cv" and "supports_2d cv"
    and "i < length panels"
  shows "\<exists>c'. hiddenCanvas (strip (drawComicForDownload br panels st)) = Some c'
     \<and> length (filter is_illustration (bitmap c')) = length panels
     \<and> filter is_illustration (bitmap c') ! i =
         (case load_image br (img_src (panels ! i)) of
            Some img \<Rightarrow>
              DrawImage img (COMIC_PADDING + int i * (PANEL_WIDTH + COMIC_PADDING)) COMIC_PADDING
                PANEL_WIDTH PANEL_HEIGHT
          | None \<Rightarrow>
              FillRect ''#e0e0e0'' (COMIC_PADDING + int i * (PANEL_WIDTH + COMIC_PADDING))
                COMIC_PADDING PANEL_WIDTH PANEL_HEIGHT)"
proof -
  let ?slots = "map (\<lambda>i. spec_slot caption_style (load_image br (img_src (panels ! i)))
                       (caption (panels ! i)) (20 + int i * 520)) [0..<length panels]"
  have "filter is_illustration (concat ?slots) =
        map (\<lambda>i. case load_image br (img_src (panels ! i)) of
                    Some img \<Rightarrow> DrawImage img (20 + int i * 520) 20 500 500
                  | None \<Rightarrow> FillRect ''#e0e0e0'' (20 + int i * 520) 20 500 500) [0..<length panels]"
    by (simp add: filter_concat comp_def illustrations_slot)
  then show ?thesis
    using stitched_layout [OF assms(1-3), of br] assms(4)
    by (simp add: PANEL_WIDTH_def PANEL_HEIGHT_def COMIC_PADDING_def split: option.splits)
qed

theorem panels_drawn_in_index_order_witness:
  "\<exists>c'. hiddenCanvas (strip (drawComicForDownload example_browser example_panels example_strip))
          = Some c'
     \<and> length (filter is_illustration (bitmap c')) = 4
     \<and> filter is_illustration (bitmap c') ! 2 =
         DrawImage \<lparr>img_pixels = map of_char ''Qw=='', img_cross_origin = False\<rparr> 1060 20 500 500"
  using panels_drawn_in_index_order [of example_panels example_strip example_canvas 2 example_browser]
  by (auto simp add: example_panels_def example_strip_def example_canvas_def example_browser_def
        example_decode_def img_src_def PANEL_WIDTH_def PANEL_HEIGHT_def COMIC_PADDING_def)

text \<open>
  Claim C4. When exactly one panel, the \<open>k\<close>-th, fails to load and every other panel
  loads, the raster still has one slot per panel: slot \<open>k\<close> holds the flat box
  \<^verbatim>\<open>#e0e0e0\<close> at the coordinates and size of the illustration, the label
  \<^verbatim>\<open>Error cargando imagen\<close> at its centre and the panel's caption; every other slot holds
  its illustration and its caption, drawn exactly as when nothing fails (the caption
  colour is restored after the label).
\<close>

theorem one_failed_panel_gets_fallback:
  assumes "hiddenCanvas st = Some cv" and "supports_2d cv"
    and "k < length panels"
    and "load_image br (img_src (panels ! k)) = None"
    and "\<forall>j<length panels. j \<noteq> k \<longrightarrow> load_image br (img_src (panels ! j)) = Some (imgs ! j)"
  shows "\<exists>c'. hiddenCanvas (strip (drawComicForDownload br panels st)) = Some c'
     \<and> bitmap c' =
         FillRect ''#f9fafb'' 0 0 (width c') (height c') #
         concat (map (\<lambda>i.
            (if i = k then
               [FillRect ''#e0e0e0'' (COMIC_PADDING + int i * (PANEL_WIDTH + COMIC_PADDING))
                  COMIC_PADDING PANEL_WIDTH PANEL_HEIGHT,
                FillText \<lparr>fillStyle = ''#666'', font = ''20px Arial'', textAlign = ''center'',
                          textBaseline = ''alphabetic''\<rparr>
                  (JStr ''Error cargando imagen'')
                  (COMIC_PADDING + int i * (PANEL_WIDTH + COMIC_PADDING) + PANEL_WIDTH div 2)
                  (COMIC_PADDING + PANEL_HEIGHT div 2)]
             else
               [DrawImage (imgs ! i) (COMIC_PADDING + int i * (PANEL_WIDTH + COMIC_PADDING))
                  COMIC_PADDING PANEL_WIDTH PANEL_HEIGHT])
            @ [FillText \<lparr>fillStyle = ''#333'', font = ''20px Arial'', textAlign = ''center'',
                          textBaseline = ''alphabetic''\<rparr>
                 (caption (panels ! i))
                 (COMIC_PADDING + int i * (PANEL_WIDTH + COMIC_PADDING) + PANEL_WIDTH div 2)
                 (COMIC_PADDING + PANEL_HEIGHT + CAPTION_HEIGHT div 2 + 10)])
          [0..<length panels])"
proof -
  have ne: "panels \<noteq> []"
    using assms(3) by auto
  have slots: "map (\<lambda>i. spec_slot caption_style (load_image br (img_src (panels ! i)))
                       (caption (panels ! i)) (20 + int i * 520)) [0..<length panels]
      = map (\<lambda>i.
            (if i = k then
               [FillRect ''#e0e0e0'' (COMIC_PADDING + int i * (PANEL_WIDTH + COMIC_PADDING))
                  COMIC_PADDING PANEL_WIDTH PANEL_HEIGHT,
                FillText \<lparr>fillStyle = ''#666'', font = ''20px Arial'', textAlign = ''center'',
                          textBaseline = ''alphabetic''\<rparr>
                  (JStr ''Error cargando imagen'')
                  (COMIC_PADDING + int i * (PANEL_WIDTH + COMIC_PADDING) + PANEL_WIDTH div 2)
                  (COMIC_PADDING + PANEL_HEIGHT div 2)]
             else
               [DrawImage (imgs ! i) (COMIC_PADDING + int i * (PANEL_WIDTH + COMIC_PADDING))
                  COMIC_PADDING PANEL_WIDTH PANEL_HEIGHT])
            @ [FillText \<lparr>fillStyle = ''#333'', font = ''20px Arial'', textAlign = ''center'',
                          textBaseline = ''alphabetic''\<rparr>
                 (caption (panels ! i))
                 (COMIC_PADDING + int i * (PANEL_WIDTH + COMIC_PADDING) + PANEL_WIDTH div 2)
                 (COMIC_PADDING + PANEL_HEIGHT + CAPTION_HEIGHT div 2 + 10)])
          [0..<length panels]"
  proof (rule map_cong [OF refl])
    fix i assume "i \<in> set [0..<length panels]"
    then have i: "i < length panels" by simp
    show "spec_slot caption_style (load_image br (img_src (panels ! i))) (caption (panels ! i))
            (20 + int i * 520) =
          (if i = k then
               [FillRect ''#e0e0e0'' (COMIC_PADDING + int i * (PANEL_WIDTH + COMIC_PADDING))
                  COMIC_PADDING PANEL_WIDTH PANEL_HEIGHT,
                FillText \<lparr>fillStyle = ''#666'', font = ''20px Arial'', textAlign = ''center'',
                          textBaseline = ''alphabetic''\<rparr>
                  (JStr ''Error cargando imagen'')
                  (COMIC_PADDING + int i * (PANEL_WIDTH + COMIC_PADDING) + PANEL_WIDTH div 2)
                  (COMIC_PADDING + PANEL_HEIGHT div 2)]
             else
               [DrawImage (imgs ! i) (COMIC_PADDING + int i * (PANEL_WIDTH + COMIC_PADDING))
                  COMIC_PADDING PANEL_WIDTH PANEL_HEIGHT])
            @ [FillText \<lparr>fillStyle = ''#333'', font = ''20px Arial'', textAlign = ''center'',
                          textBaseline = ''alphabetic''\<rparr>
                 (caption (panels ! i))
                 (COMIC_PADDING + int i * (PANEL_WIDTH + COMIC_PADDING) + PANEL_WIDTH div 2)
                 (COMIC_PADDING + PANEL_HEIGHT + CAPTION_HEIGHT div 2 + 10)]"
    proof (cases "i = k")
      case True
      then show ?thesis
        using assms(4)
        by (simp add: spec_slot_def caption_style_def PANEL_WIDTH_def PANEL_HEIGHT_def
              COMIC_PADDING_def CAPTION_HEIGHT_def)
    next
      case False
      then have "load_image br (img_src (panels ! i)) = Some (imgs ! i)"
        using assms(5) i by simp
      then show ?thesis
        using False
        by (simp add: spec_slot_def caption_style_def PANEL_WIDTH_def PANEL_HEIGHT_def
              COMIC_PADDING_def CAPTION_HEIGHT_def)
    qed
  qed
  show ?thesis
    using stitched_layout [OF ne assms(1,2), of br]
    by (simp only: slots) simp
qed

theorem one_failed_panel_gets_fallback_witness:
  "\<exists>c'. hiddenCanvas (strip (drawComicForDownload example_browser example_panels_one_bad example_strip))
          = Some c'
     \<and> bitmap c' =
         [FillRect ''#f9fafb'' 0 0 1580 590,
          DrawImage \<lparr>img_pixels = map of_char ''QQ=='', img_cross_origin = False\<rparr> 20 20 500 500,
          FillText \<lparr>fillStyle = ''#333'', font = ''20px Arial'', textAlign = ''center'',
                    textBaseline = ''alphabetic''\<rparr> (JStr ''Uno'') 270 555,
          FillRect ''#e0e0e0'' 540 20 500 500,
          FillText \<lparr>fillStyle = ''#666'', font = ''20px Arial'', textAlign = ''center'',
                    textBaseline = ''alphabetic''\<rparr> (JStr ''Error cargando imagen'') 790 270,
          FillText \<lparr>fillStyle = ''#333'', font = ''20px Arial'', textAlign = ''center'',
                    textBaseline = ''alphabetic''\<rparr> (JStr ''Dos'') 790 555,
          DrawImage \<lparr>img_pixels = map of_char ''RA=='', img_cross_origin = False\<rparr> 1060 20 500 500,
          FillText \<lparr>fillStyle = ''#333'', font = ''20px Arial'', textAlign = ''center'',
                    textBaseline = ''alphabetic''\<rparr> (JStr ''Fin'') 1310 555]"
proof -
  have len: "length example_panels_one_bad = 3"
    by (simp add: example_panels_one_bad_def)
  have up: "[0..<3] = [0, 1, 2]"
    by (simp add: upt_rec)
  have w: "\<exists>c'. hiddenCanvas (strip (drawComicForDownload example_browser example_panels_one_bad example_strip))
          = Some c' \<and> width c' = 1580 \<and> height c' = 590"
    using stitched_layout [of example_panels_one_bad example_strip example_canvas example_browser]
    by (simp add: len example_strip_def example_canvas_def) (simp add: example_panels_one_bad_def)
  show ?thesis
    using w one_failed_panel_gets_fallback [of example_strip example_canvas 1 example_panels_one_bad
        example_browser
        "[\<lparr>img_pixels = map of_char ''QQ=='', img_cross_origin = False\<rparr>,
          \<lparr>img_pixels = [], img_cross_origin = False\<rparr>,
          \<lparr>img_pixels = map of_char ''RA=='', img_cross_origin = False\<rparr>]"]
    by (auto simp add: len up example_panels_one_bad_def example_strip_def example_canvas_def
          example_browser_def example_decode_def img_src_def PANEL_WIDTH_def PANEL_HEIGHT_def
          COMIC_PADDING_def CAPTION_HEIGHT_def less_Suc_eq numeral_3_eq_3)
qed

text \<open>
  Claim C8. Every panel has exactly one caption in the raster, drawn in \<^verbatim>\<open>20px Arial\<close>,
  colour \<^verbatim>\<open>#333\<close>, with \<^verbatim>\<open>textAlign = center\<close> at the horizontal midpoint of the
  panel's illustration, so centred under it. Its baseline is at \<open>y\<close>, and the 20 pixel
  line of text that stands on the baseline, from \<open>y - 20\<close> to \<open>y\<close>, leaves the same gap
  above and below inside the caption band, which runs from \<open>P + H\<close> to \<open>P + H + C\<close>.
\<close>

theorem captions_centred_in_band:
  assumes "panels \<noteq> []" and "hiddenCanvas st = Some cv" and "supports_2d cv"
    and "i < length panels"
  shows "\<exists>c' x y. hiddenCanvas (strip (drawComicForDownload br panels st)) = Some c'
     \<and> length (filter is_caption (bitmap c')) = length panels
     \<and> filter is_caption (bitmap c') ! i =
         FillText \<lparr>fillStyle = ''#333'', font = ''20px Arial'', textAlign = ''center'',
                   textBaseline = ''alphabetic''\<rparr> (caption (panels ! i)) x y
     \<and> 2 * x = (COMIC_PADDING + int i * (PANEL_WIDTH + COMIC_PADDING))
               + (COMIC_PADDING + int i * (PANEL_WIDTH + COMIC_PADDING) + PANEL_WIDTH)
     \<and> (y - 20) - (COMIC_PADDING + PANEL_HEIGHT)
         = (COMIC_PADDING + PANEL_HEIGHT + CAPTION_HEIGHT) - y"
proof -
  let ?slots = "map (\<lambda>i. spec_slot caption_style (load_image br (img_src (panels ! i)))
                       (caption (panels ! i)) (20 + int i * 520)) [0..<length panels]"
  have "filter is_caption (concat ?slots) =
        map (\<lambda>i. FillText caption_style (caption (panels ! i)) (20 + int i * 520 + 250) 555)
          [0..<length panels]"
    by (simp add: filter_concat comp_def captions_slot)
  then show ?thesis
    using stitched_layout [OF assms(1-3), of br] assms(4)
    by (simp add: caption_style_def PANEL_WIDTH_def PANEL_HEIGHT_def COMIC_PADDING_def
          CAPTION_HEIGHT_def)
qed

theorem captions_centred_in_band_witness:
  "\<exists>c'. hiddenCanvas (strip (drawComicForDownload example_browser example_panels_one_bad example_strip))
          = Some c'
     \<and> length (filter is_caption (bitmap c')) = 3
     \<and> filter is_caption (bitmap c') ! 1 =
         FillText \<lparr>fillStyle = ''#333'', font = ''20px Arial'', textAlign = ''center'',
                   textBaseline = ''alphabetic''\<rparr> (JStr ''Dos'') 790 555
     \<and> 2 * 790 = (540 + 1040 :: int) \<and> (555 - 20) - 520 = (570 - 555 :: int)"
  using captions_centred_in_band [of example_panels_one_bad example_strip example_canvas 1 example_browser]
  by (auto simp add: example_panels_one_bad_def example_strip_def example_canvas_def
        PANEL_WIDTH_def PANEL_HEIGHT_def COMIC_PADDING_def CAPTION_HEIGHT_def)

text \<open>
  Claim C9. For a panel list in which every illustration is present and decodes,
  stitching a second time, on the canvas the first stitching drew on and whatever the
  network does meanwhile, leaves the canvas exactly as the first stitching left it: the
  same dimensions and the same display list, hence the same pixels. (Decoding a data URI
  is a function of its payload, so both stitchings share the decoder.)
\<close>

theorem restitching_same_raster:
  assumes "panels \<noteq> []" and "hiddenCanvas st = Some cv" and "supports_2d cv"
    and "decodeDataUri br2 = decodeDataUri br1"
    and "\<forall>p\<in>set panels. truthy (imageBase64 p) \<and> decodeDataUri br1 (imageBase64 p) \<noteq> None"
  shows "hiddenCanvas (strip (drawComicForDownload br2 panels (strip (drawComicForDownload br1 panels st))))
       = hiddenCanvas (strip (drawComicForDownload br1 panels st))
     \<and> hiddenCanvas (strip (drawComicForDownload br1 panels st)) \<noteq> None"
proof -
  define c1 where "c1 = \<lparr>width = int (length panels) * 520 + 20, height = 590, supports_2d = True,
           ctx = caption_style,
           bitmap = FillRect ''#f9fafb'' 0 0 (int (length panels) * 520 + 20) 590 #
             concat (map (\<lambda>i. spec_slot caption_style (load_image br1 (img_src (panels ! i)))
                       (caption (panels ! i)) (20 + int i * 520)) [0..<length panels])\<rparr>"
  have first: "hiddenCanvas (strip (drawComicForDownload br1 panels st)) = Some c1"
    unfolding c1_def by (rule stitched_layout [OF assms(1-3)])
  have "supports_2d c1"
    by (simp add: c1_def)
  from stitched_layout [OF assms(1) first this, of br2]
  have second: "hiddenCanvas (strip (drawComicForDownload br2 panels (strip (drawComicForDownload br1 panels st)))) =
     Some \<lparr>width = int (length panels) * 520 + 20, height = 590, supports_2d = True,
           ctx = caption_style,
           bitmap = FillRect ''#f9fafb'' 0 0 (int (length panels) * 520 + 20) 590 #
             concat (map (\<lambda>i. spec_slot caption_style (load_image br2 (img_src (panels ! i)))
                       (caption (panels ! i)) (20 + int i * 520)) [0..<length panels])\<rparr>" .
  have same: "map (\<lambda>i. spec_slot caption_style (load_image br2 (img_src (panels ! i)))
                       (caption (panels ! i)) (20 + int i * 520)) [0..<length panels]
            = map (\<lambda>i. spec_slot caption_style (load_image br1 (img_src (panels ! i)))
                       (caption (panels ! i)) (20 + int i * 520)) [0..<length panels]"
  proof (rule map_cong [OF refl])
    fix i assume "i \<in> set [0..<length panels]"
    then have "panels ! i \<in> set panels" by simp
    then have "truthy (imageBase64 (panels ! i))"
      using assms(5) by blast
    then have "load_image br2 (img_src (panels ! i)) = load_image br1 (img_src (panels ! i))"
      by (simp add: img_src_def assms(4))
    then show "spec_slot caption_style (load_image br2 (img_src (panels ! i)))
                 (caption (panels ! i)) (20 + int i * 520)
             = spec_slot caption_style (load_image br1 (img_src (panels ! i)))
                 (caption (panels ! i)) (20 + int i * 520)"
      by simp
  qed
  show ?thesis
    using first second by (simp add: c1_def same)
qed

theorem restitching_same_raster_witness:
  "hiddenCanvas (strip (drawComicForDownload example_browser_offline example_panels
        (strip (drawComicForDownload example_browser example_panels example_strip))))
       = hiddenCanvas (strip (drawComicForDownload example_browser example_panels example_strip))
     \<and> hiddenCanvas (strip (drawComicForDownload example_browser example_panels example_strip)) \<noteq> None"
  using restitching_same_raster [of example_panels example_strip example_canvas
      example_browser_offline example_browser]
  by (simp add: example_panels_def example_strip_def example_canvas_def example_browser_def
        example_browser_offline_def example_decode_def)

section \<open>The orchestration\<close>

lemma spec_run_append:
  "spec_run ph (a @ b) = (case spec_run ph a of None \<Rightarrow> None | Some ph' \<Rightarrow> spec_run ph' b)"
  by (induction a arbitrary: ph) (auto split: option.splits)

lemma spec_step_pending:
  "spec_step ph ev = Some ph' \<Longrightarrow> pending ph' = pending ph + (if is_call ev then 1 else - 1)"
  by (induction ph ev rule: spec_step.induct) auto

lemma in_flight_Cons:
  "in_flight (ev # evs) = (if is_call ev then 1 else - 1) + in_flight evs"
  by (simp add: in_flight_def)

lemma spec_run_in_flight:
  "spec_run ph evs = Some ph' \<Longrightarrow> in_flight evs = pending ph' - pending ph"
proof (induction evs arbitrary: ph)
  case Nil
  then show ?case by (simp add: in_flight_def)
next
  case (Cons ev evs)
  then obtain ph1 where s: "spec_step ph ev = Some ph1" and r: "spec_run ph1 evs = Some ph'"
    by (auto split: option.splits)
  show ?case
    using Cons.IH [OF r] spec_step_pending [OF s] by (simp add: in_flight_Cons)
qed

lemma spec_run_take:
  "spec_run ph evs = Some ph' \<Longrightarrow> \<exists>ph''. spec_run ph (take n evs) = Some ph''"
proof (induction evs arbitrary: ph n)
  case Nil
  then show ?case by simp
next
  case (Cons ev evs)
  then obtain ph1 where s: "spec_step ph ev = Some ph1" and r: "spec_run ph1 evs = Some ph'"
    by (auto split: option.splits)
  show ?case
  proof (cases n)
    case 0
    then show ?thesis by simp
  next
    case (Suc m)
    then show ?thesis using Cons.IH [OF r, of m] s by simp
  qed
qed

lemma pending_bounds: "0 \<le> pending ph \<and> pending ph \<le> 1"
  by (cases ph) simp_all

lemma spec_run_prefix_in_flight:
  assumes "spec_run NotStarted evs = Some ph'"
  shows "0 \<le> in_flight (take n evs) \<and> in_flight (take n evs) \<le> 1"
proof -
  obtain ph'' where "spec_run NotStarted (take n evs) = Some ph''"
    using spec_run_take [OF assms] by blast
  then have "in_flight (take n evs) = pending ph''"
    using spec_run_in_flight by fastforce
  then show ?thesis using pending_bounds [of ph''] by simp
qed

lemma generate_panels_sequential:
  "spec_run ph0 evs = Some Idle \<Longrightarrow>
   spec_run ph0 (snd (generate_panels w k ps acc evs)) \<in> {Some Idle, Some Aborted}"
proof (induction ps arbitrary: k acc evs)
  case Nil
  then show ?case by simp
next
  case (Cons prompt rest)
  show ?case
  proof (cases "get_field ''imagePrompt'' prompt")
    case (Inl e)
    then show ?thesis using Cons.prems by simp
  next
    case (Inr imagePrompt)
    note ip = this
    show ?thesis
    proof (cases "generateImageFromPrompt w k imagePrompt")
      case (Inl e)
      then show ?thesis
        using Cons.prems ip by (simp add: Let_def spec_run_append)
    next
      case (Inr img)
      have step: "spec_run ph0 (evs @ [ImageGeneratorCalled imagePrompt, ImageGeneratorSettled (Inr img)])
                    = Some Idle"
        using Cons.prems by (simp add: spec_run_append)
      show ?thesis
      proof (cases "get_field ''caption'' prompt")
        case (Inl e)
        then show ?thesis using ip Inr step by (simp add: Let_def)
      next
        case (Inr cap)
        then show ?thesis
          using ip \<open>generateImageFromPrompt w k imagePrompt = Inr img\<close> Cons.IH [OF step]
          by (simp add: Let_def)
      qed
    qed
  qed
qed

lemma handleGenerateComic_try_sequential:
  "spec_run NotStarted (snd (handleGenerateComic_try w up mime)) \<in> {Some Idle, Some Aborted}"
proof (cases "generateComicPrompts w (base64 up) mime DEFAULT_PANEL_COUNT")
  case (Inl e)
  then show ?thesis by (simp add: handleGenerateComic_try_def Let_def)
next
  case (Inr v)
  have start: "spec_run NotStarted [PromptGeneratorCalled, PromptGeneratorSettled (Inr v)] = Some Idle"
    by simp
  show ?thesis
    using Inr generate_panels_sequential [OF start]
    by (simp add: handleGenerateComic_try_def Let_def split: sum.splits)
qed

lemma handleGenerateComic_sequential:
  "spec_run NotStarted (snd (handleGenerateComic w s)) \<in> {Some NotStarted, Some Idle, Some Aborted}"
proof (cases "uploadedImage s")
  case None
  then show ?thesis by (simp add: handleGenerateComic_def)
next
  case (Some up)
  note up = this
  show ?thesis
  proof (cases "uploadedImageMimeType s")
    case None
    then show ?thesis using up by (simp add: handleGenerateComic_def)
  next
    case (Some mime)
    show ?thesis
    proof (cases "mime = []")
      case True
      then show ?thesis using up Some by (simp add: handleGenerateComic_def)
    next
      case False
      obtain r evs where t: "handleGenerateComic_try w up mime = (r, evs)"
        by (cases "handleGenerateComic_try w up mime")
      have "snd (handleGenerateComic w s) = evs"
        using up Some False t by (simp add: handleGenerateComic_def Let_def split: sum.splits)
      then show ?thesis
        using handleGenerateComic_try_sequential [of w up mime] t by auto
    qed
  qed
qed

text \<open>
  An example run: the script has two panels and the second image call is rejected.
\<close>

lemma example_run_second_image_fails:
  "snd (handleGenerateComic (example_world (Some example_script_text) (Some 1)) example_state)
      = [PromptGeneratorCalled, PromptGeneratorSettled (Inr example_script),
         ImageGeneratorCalled (JStr ''a cat wakes up''), ImageGeneratorSettled (Inr (JStr ''QQ=='')),
         ImageGeneratorCalled (JStr ''the cat jumps''),
         ImageGeneratorSettled (Inl (Thrown PlainError ''Failed to generate image: 503 Service Unavailable''))]"
  by (simp add: handleGenerateComic_def handleGenerateComic_try_def generateComicPrompts_def
        generateComicPrompts_try_def getGenerativeAI_def generateImageFromPrompt_def
        generateImageFromPrompt_try_def example_world_def example_state_def example_JSON_parse_def
        example_script_def example_script_text_def trim_def is_js_space_def Let_def
        DEFAULT_PANEL_COUNT_def)

lemma generate_panels_failure:
  assumes "ImageGeneratorSettled (Inl e) \<in> set (snd (generate_panels w k ps acc evs))"
    and "\<forall>e'. ImageGeneratorSettled (Inl e') \<notin> set evs"
  shows "fst (generate_panels w k ps acc evs) = Inl e
     \<and> (\<exists>pre p. snd (generate_panels w k ps acc evs)
            = pre @ [ImageGeneratorCalled p, ImageGeneratorSettled (Inl e)])"
  using assms
proof (induction ps arbitrary: k acc evs)
  case Nil
  then show ?case by simp
next
  case (Cons prompt rest)
  show ?case
  proof (cases "get_field ''imagePrompt'' prompt")
    case (Inl e0)
    then show ?thesis using Cons.prems by simp
  next
    case (Inr imagePrompt)
    note ip = this
    show ?thesis
    proof (cases "generateImageFromPrompt w k imagePrompt")
      case (Inl e1)
      then have res: "generate_panels w k (prompt # rest) acc evs
          = (Inl e1, evs @ [ImageGeneratorCalled imagePrompt, ImageGeneratorSettled (Inl e1)])"
        using ip by (simp add: Let_def)
      then have "e = e1"
        using Cons.prems by auto
      then show ?thesis
        using res by auto
    next
      case (Inr img)
      note im = this
      let ?evs1 = "evs @ [ImageGeneratorCalled imagePrompt, ImageGeneratorSettled (Inr img)]"
      have clean: "\<forall>e'. ImageGeneratorSettled (Inl e') \<notin> set ?evs1"
        using Cons.prems(2) by simp
      show ?thesis
      proof (cases "get_field ''caption'' prompt")
        case (Inl e2)
        then have "snd (generate_panels w k (prompt # rest) acc evs) = ?evs1"
          using ip im by (simp add: Let_def)
        then show ?thesis using Cons.prems(1) clean by simp
      next
        case (Inr cap)
        then have eq: "generate_panels w k (prompt # rest) acc evs
          = generate_panels w (Suc k) rest (acc @ [\<lparr>caption = cap, imageBase64 = img\<rparr>]) ?evs1"
          using ip im by (simp add: Let_def)
        show ?thesis
          unfolding eq
          by (rule Cons.IH [OF _ clean]) (use Cons.prems(1) eq in simp)
      qed
    qed
  qed
qed

lemma handleGenerateComic_try_failure:
  assumes "ImageGeneratorSettled (Inl e) \<in> set (snd (handleGenerateComic_try w up mime))"
  shows "fst (handleGenerateComic_try w up mime) = Inl e
     \<and> (\<exists>pre p. snd (handleGenerateComic_try w up mime)
            = pre @ [ImageGeneratorCalled p, ImageGeneratorSettled (Inl e)])"
proof (cases "generateComicPrompts w (base64 up) mime DEFAULT_PANEL_COUNT")
  case (Inl e0)
  then show ?thesis using assms by (simp add: handleGenerateComic_try_def Let_def)
next
  case (Inr v)
  note v = this
  let ?evs0 = "[PromptGeneratorCalled, PromptGeneratorSettled (Inr v)]"
  have clean: "\<forall>e'. ImageGeneratorSettled (Inl e') \<notin> set ?evs0"
    by simp
  show ?thesis
  proof (cases "\<not> truthy v \<or> get_length v = JNum (Finite 0)")
    case True
    then show ?thesis using assms v by (simp add: handleGenerateComic_try_def Let_def)
  next
    case False
    note guard = this
    show ?thesis
    proof (cases "iterate v")
      case (Inl e1)
      then show ?thesis using assms v guard by (simp add: handleGenerateComic_try_def Let_def)
    next
      case (Inr prompts)
      then have eq: "handleGenerateComic_try w up mime = generate_panels w 0 prompts [] ?evs0"
        using v guard by (simp add: handleGenerateComic_try_def Let_def)
      show ?thesis
        unfolding eq
        by (rule generate_panels_failure [OF _ clean]) (use assms eq in simp)
    qed
  qed
qed

text \<open>
  Claim C1. In a run in which a call of the image generator fails, that call is the last
  thing the run does: no further generation call follows it. The panels collected so far
  are dropped: the exposed panel list is empty, the view is not switched to the comic,
  there is no download URL, and the strip's effect, given that panel list, neither draws
  nor calls \<^verbatim>\<open>onDownloadReady\<close>. The run leaves one error message, built from the
  failure, and is no longer loading.
\<close>

theorem image_failure_aborts_run:
  assumes "handleGenerateComic w s = (s', evs)"
    and "ImageGeneratorSettled (Inl e) \<in> set evs"
  shows "(\<exists>pre p. evs = pre @ [ImageGeneratorCalled p, ImageGeneratorSettled (Inl e)])
     \<and> comicPanels s' = [] \<and> comicDownloadDataUrl s' = None \<and> view s' = view s
     \<and> error s' = Some (''Error al generar el c'' @ [CHR 0xF3] @ ''mic: '' @ message e)
     \<and> \<not> loading s'
     \<and> ComicStrip_effect br (comicPanels s') (loading s') st
         = \<lparr>strip = st, onDownloadReady_calls = [], rejection = None\<rparr>"
proof -
  obtain up mime where up: "uploadedImage s = Some up"
    and mime: "uploadedImageMimeType s = Some mime" and ne: "mime \<noteq> []"
    using assms by (auto simp add: handleGenerateComic_def split: option.splits if_splits)
  obtain r evs' where t: "handleGenerateComic_try w up mime = (r, evs')"
    by (cases "handleGenerateComic_try w up mime")
  have evs: "evs' = evs"
    using assms(1) up mime ne t by (auto simp add: handleGenerateComic_def Let_def split: sum.splits)
  have "r = Inl e \<and> (\<exists>pre p. evs' = pre @ [ImageGeneratorCalled p, ImageGeneratorSettled (Inl e)])"
    using handleGenerateComic_try_failure [of e w up mime] assms(2) t evs by simp
  then have r: "r = Inl e"
    and tail: "\<exists>pre p. evs = pre @ [ImageGeneratorCalled p, ImageGeneratorSettled (Inl e)]"
    using evs by auto
  have s': "s' = s\<lparr>loading := True, error := None, comicPanels := [], comicDownloadDataUrl := None,
                  error := Some (''Error al generar el c'' @ [CHR 0xF3] @ ''mic: '' @ message e),
                  loading := False\<rparr>"
    using assms(1) up mime ne t r by (simp add: handleGenerateComic_def Let_def)
  show ?thesis
    using tail by (simp add: s' ComicStrip_effect_def)
qed

theorem image_failure_aborts_run_witness:
  "(\<exists>pre p. snd (handleGenerateComic (example_world (Some example_script_text) (Some 1)) example_state)
       = pre @ [ImageGeneratorCalled p,
                ImageGeneratorSettled (Inl (Thrown PlainError ''Failed to generate image: 503 Service Unavailable''))])
   \<and> comicPanels (fst (handleGenerateComic (example_world (Some example_script_text) (Some 1)) example_state)) = []
   \<and> comicDownloadDataUrl (fst (handleGenerateComic (example_world (Some example_script_text) (Some 1)) example_state)) = None
   \<and> error (fst (handleGenerateComic (example_world (Some example_script_text) (Some 1)) example_state))
       = Some (''Error al generar el c'' @ [CHR 0xF3] @ ''mic: Failed to generate image: 503 Service Unavailable'')"
proof -
  have mem: "ImageGeneratorSettled (Inl (Thrown PlainError ''Failed to generate image: 503 Service Unavailable''))
      \<in> set (snd (handleGenerateComic (example_world (Some example_script_text) (Some 1)) example_state))"
    by (simp only: example_run_second_image_fails) simp
  show ?thesis
    using image_failure_aborts_run [OF prod.collapse [symmetric] mem,
        of example_browser "\<lparr>hiddenCanvas = None, downloadLink = None\<rparr>"]
    by simp
qed

text \<open>
  Claim C5. The calls of every run follow the automaton of the orchestration: the prompt
  generator is called first and settles before any image generator call is issued, every
  image generator call settles before the next is issued, and nothing is called after a
  rejection. At every point of the run at most one call is outstanding.
\<close>

theorem generation_calls_strictly_sequential:
  "spec_run NotStarted (snd (handleGenerateComic w s)) \<in> {Some NotStarted, Some Idle, Some Aborted}
   \<and> (\<forall>n. 0 \<le> in_flight (take n (snd (handleGenerateComic w s)))
          \<and> in_flight (take n (snd (handleGenerateComic w s))) \<le> 1)"
proof -
  have acc: "spec_run NotStarted (snd (handleGenerateComic w s)) \<in> {Some NotStarted, Some Idle, Some Aborted}"
    by (rule handleGenerateComic_sequential)
  then obtain ph where "spec_run NotStarted (snd (handleGenerateComic w s)) = Some ph"
    by auto
  then show ?thesis
    using acc spec_run_prefix_in_flight by blast
qed

theorem generation_calls_strictly_sequential_witness:
  "spec_run NotStarted
     (snd (handleGenerateComic (example_world (Some example_script_text) (Some 1)) example_state))
     = Some Aborted
   \<and> (\<forall>n. 0 \<le> in_flight (take n (snd (handleGenerateComic
                 (example_world (Some example_script_text) (Some 1)) example_state)))
          \<and> in_flight (take n (snd (handleGenerateComic
                 (example_world (Some example_script_text) (Some 1)) example_state))) \<le> 1)
   \<and> in_flight (take 5 (snd (handleGenerateComic
                 (example_world (Some example_script_text) (Some 1)) example_state))) = 1"
proof -
  have "spec_run NotStarted
     (snd (handleGenerateComic (example_world (Some example_script_text) (Some 1)) example_state))
     = Some Aborted"
    by (simp only: example_run_second_image_fails) simp
  moreover have "in_flight (take 5 (snd (handleGenerateComic
                 (example_world (Some example_script_text) (Some 1)) example_state))) = 1"
    by (simp only: example_run_second_image_fails) (simp add: in_flight_def)
  ultimately show ?thesis
    using generation_calls_strictly_sequential
      [of "example_world (Some example_script_text) (Some 1)" example_state]
    by blast
qed

text \<open>
  Claim C6, as the code has it. The prompt generator returns a value exactly when the key
  is set, the single text call made for the requested count \<open>n\<close> answers with a text that
  is not blank, and \<^verbatim>\<open>JSON.parse\<close> accepts the trimmed text; the value returned is the
  parsed one. How many entries it has, which panel numbers and how many words is up to
  the service: the count is asked for in the instruction text and not checked.
\<close>

theorem prompt_generator_returns_parsed_response:
  "generateComicPrompts w img mime n = Inr v \<longleftrightarrow>
     (\<exists>key t. API_KEY w = Some key \<and> key \<noteq> []
        \<and> generateContent_text w \<lparr>req_image = img, req_mimeType = mime, req_panelCount = n\<rparr>
            = Fulfilled (Some t)
        \<and> trim t \<noteq> [] \<and> JSON_parse w (trim t) = Inr v)"
  by (auto simp add: generateComicPrompts_def generateComicPrompts_try_def getGenerativeAI_def
        split: option.splits sum.splits settled.splits if_splits)

theorem prompt_generator_returns_parsed_response_witness:
  "generateComicPrompts (example_world (Some example_script_text) None) ''aGk='' ''image/png'' 4
     = Inr example_script"
proof -
  have t: "trim example_script_text = example_script_text"
    by (simp add: trim_def example_script_text_def is_js_space_def)
  have ne: "example_script_text \<noteq> []"
    by (simp add: example_script_text_def)
  show ?thesis
    using prompt_generator_returns_parsed_response
      [of "example_world (Some example_script_text) None" "''aGk=''" "''image/png''" 4 example_script]
    by (simp add: example_world_def example_JSON_parse_def t ne)
qed

text \<open>
  Claim C6 as stated fails: asked for four panels, a service that answers with the empty
  array makes the prompt generator return no entry at all. (\<^verbatim>\<open>handleGenerateComic\<close>
  has a guard for exactly this result.)
\<close>

theorem prompt_generator_entry_count_counterexample:
  "generateComicPrompts (example_world (Some ''[]'') None) ''aGk='' ''image/png'' 4 = Inr (JArr [])
   \<and> length ([] :: js_value list) \<noteq> 4"
  by (simp add: generateComicPrompts_def generateComicPrompts_try_def getGenerativeAI_def
        example_world_def example_JSON_parse_def example_script_text_def trim_def is_js_space_def)

text \<open>
  Claim C7 as stated fails: the text \<^verbatim>\<open>42\<close> is valid JSON that does not match the
  schema, and the prompt generator returns it without an error.
\<close>

theorem unchecked_schema_counterexample:
  "\<not> matches_COMIC_PANEL_SCHEMA (JNum (Finite 42))
   \<and> JSON_parse (example_world (Some ''42'') None) ''42'' = Inr (JNum (Finite 42))
   \<and> generateComicPrompts (example_world (Some ''42'') None) ''aGk='' ''image/png'' 4
       = Inr (JNum (Finite 42))"
  by (simp add: generateComicPrompts_def generateComicPrompts_try_def getGenerativeAI_def
        example_world_def example_JSON_parse_def example_script_text_def trim_def is_js_space_def)

text \<open>
  Claim C7, as the code has it. With the key set and the text call answered: when the
  answer has no text, or only white space, the prompt generator fails with a plain
  \<^verbatim>\<open>Error\<close> whose message is the prefix \<^verbatim>\<open>Failed to generate comic prompts: \<close>
  followed by the empty-response message; when \<^verbatim>\<open>JSON.parse\<close> rejects the trimmed text
  it fails with a plain \<^verbatim>\<open>Error\<close> whose message is that prefix followed by the parser's
  message, the run makes no image generator call, and the message surfaced is built from
  it; any text that \<^verbatim>\<open>JSON.parse\<close> accepts is returned as parsed, with no check against
  the schema.
\<close>

theorem prompt_generator_failures:
  assumes "API_KEY w = Some key" and "key \<noteq> []"
    and "uploadedImage s = Some up" and "uploadedImageMimeType s = Some mime" and "mime \<noteq> []"
    and "generateContent_text w
           \<lparr>req_image = base64 up, req_mimeType = mime, req_panelCount = DEFAULT_PANEL_COUNT\<rparr>
         = Fulfilled text"
  shows "(text = None \<or> (\<exists>t. text = Some t \<and> trim t = []) \<longrightarrow>
            generateComicPrompts w (base64 up) mime DEFAULT_PANEL_COUNT
              = Inl (Thrown PlainError (''Failed to generate comic prompts: ''
                  @ ''Empty response or no text content from Gemini API for comic prompts.'')))
     \<and> (\<forall>t e. text = Some t \<and> trim t \<noteq> [] \<and> JSON_parse w (trim t) = Inl e \<longrightarrow>
            generateComicPrompts w (base64 up) mime DEFAULT_PANEL_COUNT
              = Inl (Thrown PlainError (''Failed to generate comic prompts: '' @ message e))
          \<and> snd (handleGenerateComic w s)
              = [PromptGeneratorCalled,
                 PromptGeneratorSettled
                   (Inl (Thrown PlainError (''Failed to generate comic prompts: '' @ message e)))]
          \<and> error (fst (handleGenerateComic w s))
              = Some (''Error al generar el c'' @ [CHR 0xF3] @ ''mic: ''
                      @ ''Failed to generate comic prompts: '' @ message e)
          \<and> comicPanels (fst (handleGenerateComic w s)) = [])
     \<and> (\<forall>t v. text = Some t \<and> trim t \<noteq> [] \<and> JSON_parse w (trim t) = Inr v \<longrightarrow>
            generateComicPrompts w (base64 up) mime DEFAULT_PANEL_COUNT = Inr v)"
proof (intro conjI allI impI)
  assume "text = None \<or> (\<exists>t. text = Some t \<and> trim t = [])"
  then show "generateComicPrompts w (base64 up) mime DEFAULT_PANEL_COUNT
              = Inl (Thrown PlainError (''Failed to generate comic prompts: ''
                  @ ''Empty response or no text content from Gemini API for comic prompts.''))"
    using assms(1,2,6)
    by (auto simp add: generateComicPrompts_def generateComicPrompts_try_def getGenerativeAI_def)
next
  fix t e
  assume a: "text = Some t \<and> trim t \<noteq> [] \<and> JSON_parse w (trim t) = Inl e"
  show g: "generateComicPrompts w (base64 up) mime DEFAULT_PANEL_COUNT
              = Inl (Thrown PlainError (''Failed to generate comic prompts: '' @ message e))"
    using assms(1,2,6) a
    by (simp add: generateComicPrompts_def generateComicPrompts_try_def getGenerativeAI_def)
  have t: "handleGenerateComic_try w up mime
      = (Inl (Thrown PlainError (''Failed to generate comic prompts: '' @ message e)),
         [PromptGeneratorCalled,
          PromptGeneratorSettled
            (Inl (Thrown PlainError (''Failed to generate comic prompts: '' @ message e)))])"
    using g by (simp add: handleGenerateComic_try_def Let_def)
  show "snd (handleGenerateComic w s)
              = [PromptGeneratorCalled,
                 PromptGeneratorSettled
                   (Inl (Thrown PlainError (''Failed to generate comic prompts: '' @ message e)))]"
    using assms(3,4,5) t by (simp add: handleGenerateComic_def Let_def)
  show "error (fst (handleGenerateComic w s))
              = Some (''Error al generar el c'' @ [CHR 0xF3] @ ''mic: ''
                      @ ''Failed to generate comic prompts: '' @ message e)"
    using assms(3,4,5) t by (simp add: handleGenerateComic_def Let_def)
  show "comicPanels (fst (handleGenerateComic w s)) = []"
    using assms(3,4,5) t by (simp add: handleGenerateComic_def Let_def)
next
  fix t v
  assume "text = Some t \<and> trim t \<noteq> [] \<and> JSON_parse w (trim t) = Inr v"
  then show "generateComicPrompts w (base64 up) mime DEFAULT_PANEL_COUNT = Inr v"
    using assms(1,2,6)
    by (simp add: generateComicPrompts_def generateComicPrompts_try_def getGenerativeAI_def)
qed

theorem prompt_generator_failures_witness:
  "generateComicPrompts (example_world (Some ''{oops'') None) ''aGk='' ''image/png'' DEFAULT_PANEL_COUNT
     = Inl (Thrown PlainError (''Failed to generate comic prompts: ''
              @ ''Expected property name or } in JSON at position 1''))
   \<and> snd (handleGenerateComic (example_world (Some ''{oops'') None) example_state)
       = [PromptGeneratorCalled,
          PromptGeneratorSettled
            (Inl (Thrown PlainError (''Failed to generate comic prompts: ''
                    @ ''Expected property name or } in JSON at position 1'')))]
   \<and> error (fst (handleGenerateComic (example_world (Some ''{oops'') None) example_state))
       = Some (''Error al generar el c'' @ [CHR 0xF3] @ ''mic: ''
               @ ''Failed to generate comic prompts: ''
               @ ''Expected property name or } in JSON at position 1'')
   \<and> comicPanels (fst (handleGenerateComic (example_world (Some ''{oops'') None) example_state)) = []"
proof -
  have t: "trim ''{oops'' = ''{oops''"
    by (simp add: trim_def is_js_space_def)
  have p: "JSON_parse (example_world (Some ''{oops'') None) ''{oops''
      = Inl (Thrown SyntaxError ''Expected property name or } in JSON at position 1'')"
    by (simp add: example_world_def example_JSON_parse_def example_script_text_def)
  have "\<forall>t e. Some ''{oops'' = Some t \<and> trim t \<noteq> []
          \<and> JSON_parse (example_world (Some ''{oops'') None) (trim t) = Inl e \<longrightarrow>
            generateComicPrompts (example_world (Some ''{oops'') None) (base64 \<lparr>base64 = ''aGk='', filename = ''cat.png''\<rparr>) ''image/png'' DEFAULT_PANEL_COUNT
              = Inl (Thrown PlainError (''Failed to generate comic prompts: '' @ message e))
          \<and> snd (handleGenerateComic (example_world (Some ''{oops'') None) example_state)
              = [PromptGeneratorCalled,
                 PromptGeneratorSettled
                   (Inl (Thrown PlainError (''Failed to generate comic prompts: '' @ message e)))]
          \<and> error (fst (handleGenerateComic (example_world (Some ''{oops'') None) example_state))
              = Some (''Error al generar el c'' @ [CHR 0xF3] @ ''mic: ''
                      @ ''Failed to generate comic prompts: '' @ message e)
          \<and> comicPanels (fst (handleGenerateComic (example_world (Some ''{oops'') None) example_state)) = []"
    using prompt_generator_failures [of "example_world (Some ''{oops'') None" "''secret''" example_state
        "\<lparr>base64 = ''aGk='', filename = ''cat.png''\<rparr>" "''image/png''" "Some ''{oops''"]
    by (simp add: example_world_def example_state_def)
  from this [rule_format, of "''{oops''" "Thrown SyntaxError ''Expected property name or } in JSON at position 1''"]
  show ?thesis
    using t p by simp
qed

lemma generate_panels_success:
  assumes "fst (generate_panels w k ps acc evs) = Inr panels"
  shows "\<exists>new. panels = acc @ new
     \<and> map (\<lambda>p. Inr (caption p)) new = map (get_field ''caption'') ps"
  using assms
proof (induction ps arbitrary: k acc evs)
  case Nil
  then show ?case by simp
next
  case (Cons prompt rest)
  obtain imagePrompt where ip: "get_field ''imagePrompt'' prompt = Inr imagePrompt"
    using Cons.prems by (cases "get_field ''imagePrompt'' prompt") simp_all
  obtain img where im: "generateImageFromPrompt w k imagePrompt = Inr img"
    using Cons.prems ip by (cases "generateImageFromPrompt w k imagePrompt") (simp_all add: Let_def)
  obtain cap where cp: "get_field ''caption'' prompt = Inr cap"
    using Cons.prems ip im by (cases "get_field ''caption'' prompt") (simp_all add: Let_def)
  have "fst (generate_panels w (Suc k) rest (acc @ [\<lparr>caption = cap, imageBase64 = img\<rparr>])
          (evs @ [ImageGeneratorCalled imagePrompt, ImageGeneratorSettled (Inr img)])) = Inr panels"
    using Cons.prems ip im cp by (simp add: Let_def)
  from Cons.IH [OF this] obtain new where
    "panels = (acc @ [\<lparr>caption = cap, imageBase64 = img\<rparr>]) @ new"
    "map (\<lambda>p. Inr (caption p)) new = map (get_field ''caption'') rest"
    by blast
  then have "panels = acc @ (\<lparr>caption = cap, imageBase64 = img\<rparr> # new)
     \<and> map (\<lambda>p. Inr (caption p)) (\<lparr>caption = cap, imageBase64 = img\<rparr> # new)
         = map (get_field ''caption'') (prompt # rest)"
    using cp by simp
  then show ?case by blast
qed

lemma generate_panels_extends:
  "\<exists>rest. snd (generate_panels w k ps acc evs) = evs @ rest"
proof (induction ps arbitrary: k acc evs)
  case Nil
  then show ?case by simp
next
  case (Cons prompt rest)
  show ?case
  proof (cases "get_field ''imagePrompt'' prompt")
    case (Inl e)
    then show ?thesis by simp
  next
    case (Inr imagePrompt)
    note ip = this
    show ?thesis
    proof (cases "generateImageFromPrompt w k imagePrompt")
      case (Inl e)
      then show ?thesis using ip by (simp add: Let_def)
    next
      case (Inr img)
      note im = this
      show ?thesis
      proof (cases "get_field ''caption'' prompt")
        case (Inl e)
        then show ?thesis using ip im by (simp add: Let_def)
      next
        case (Inr cap)
        obtain more where "snd (generate_panels w (Suc k) rest (acc @ [\<lparr>caption = cap, imageBase64 = img\<rparr>])
            (evs @ [ImageGeneratorCalled imagePrompt, ImageGeneratorSettled (Inr img)]))
          = (evs @ [ImageGeneratorCalled imagePrompt, ImageGeneratorSettled (Inr img)]) @ more"
          using Cons.IH by blast
        then show ?thesis using ip im Inr by (simp add: Let_def)
      qed
    qed
  qed
qed

text \<open>
  The panels of a successful run follow the script. A run that ends without an error
  message has switched to the comic view, and its panel list has one panel per element
  of the value the prompt generator returned, in the order of that array, each with the
  \<^verbatim>\<open>caption\<close> of its element. The \<^verbatim>\<open>panelNumber\<close> of an element plays no part.
\<close>

theorem panels_follow_script_order:
  assumes "handleGenerateComic w s = (s', evs)" and "error s' = None"
  shows "\<exists>v prompts. evs ! 1 = PromptGeneratorSettled (Inr v) \<and> iterate v = Inr prompts
     \<and> view s' = COMIC
     \<and> map (\<lambda>p. Inr (caption p)) (comicPanels s') = map (get_field ''caption'') prompts"
proof -
  obtain up mime where up: "uploadedImage s = Some up"
    and mime: "uploadedImageMimeType s = Some mime" and ne: "mime \<noteq> []"
    using assms by (auto simp add: handleGenerateComic_def split: option.splits if_splits)
  obtain r evs' where t: "handleGenerateComic_try w up mime = (r, evs')"
    by (cases "handleGenerateComic_try w up mime")
  obtain panels where r: "r = Inr panels"
    using assms up mime ne t
    by (cases r) (auto simp add: handleGenerateComic_def Let_def)
  have s': "comicPanels s' = panels" "view s' = COMIC" and evs: "evs = evs'"
    using assms(1) up mime ne t r by (auto simp add: handleGenerateComic_def Let_def)
  obtain v where v: "generateComicPrompts w (base64 up) mime DEFAULT_PANEL_COUNT = Inr v"
    using t r by (cases "generateComicPrompts w (base64 up) mime DEFAULT_PANEL_COUNT")
      (simp_all add: handleGenerateComic_try_def Let_def)
  have guard: "\<not> (\<not> truthy v \<or> get_length v = JNum (Finite 0))"
    using t r v by (auto simp add: handleGenerateComic_try_def Let_def split: if_splits)
  obtain prompts where it: "iterate v = Inr prompts"
    using t r v guard by (cases "iterate v") (simp_all add: handleGenerateComic_try_def Let_def)
  have eq: "handleGenerateComic_try w up mime
      = generate_panels w 0 prompts [] [PromptGeneratorCalled, PromptGeneratorSettled (Inr v)]"
    using v guard it by (simp add: handleGenerateComic_try_def Let_def)
  have "fst (generate_panels w 0 prompts [] [PromptGeneratorCalled, PromptGeneratorSettled (Inr v)])
      = Inr panels"
    using eq t r by (metis fst_conv)
  from generate_panels_success [OF this]
  have order: "map (\<lambda>p. Inr (caption p)) panels = map (get_field ''caption'') prompts"
    by simp
  have "\<exists>rest. evs' = [PromptGeneratorCalled, PromptGeneratorSettled (Inr v)] @ rest"
    using generate_panels_extends [of w 0 prompts "[]" "[PromptGeneratorCalled, PromptGeneratorSettled (Inr v)]"]
      eq t by (metis snd_conv)
  then have "evs ! 1 = PromptGeneratorSettled (Inr v)"
    using evs by auto
  then show ?thesis
    using it order s' by blast
qed

theorem panels_follow_script_order_witness:
  "\<exists>v prompts.
      snd (handleGenerateComic (example_world (Some example_script_text) None) example_state) ! 1
        = PromptGeneratorSettled (Inr v)
    \<and> iterate v = Inr prompts
    \<and> view (fst (handleGenerateComic (example_world (Some example_script_text) None) example_state))
        = COMIC
    \<and> map (\<lambda>p. Inr (caption p))
          (comicPanels (fst (handleGenerateComic (example_world (Some example_script_text) None)
             example_state)))
        = map (get_field ''caption'') prompts"
proof -
  have "error (fst (handleGenerateComic (example_world (Some example_script_text) None) example_state))
      = None"
    by (simp add: handleGenerateComic_def handleGenerateComic_try_def generateComicPrompts_def
          generateComicPrompts_try_def getGenerativeAI_def generateImageFromPrompt_def
          generateImageFromPrompt_try_def example_world_def example_state_def example_JSON_parse_def
          example_script_def example_script_text_def trim_def is_js_space_def Let_def
          DEFAULT_PANEL_COUNT_def)
  from panels_follow_script_order [OF prod.collapse [symmetric] this]
  show ?thesis .
qed

end
